theory Spec2Isabelle
  imports Complex_Main "HOL-Library.Sublist"
begin

section \<open>Python string operations used by the dashboard\<close>

text \<open>
  Text is modelled as \<open>string\<close>; a \<open>char\<close> stands for one code point below 256.
  \<open>isspace\<close> is \<^verbatim>\<open>str.isspace\<close> on those code points: TAB, LF, VT, FF, CR,
  the separators 0x1C to 0x1F, SPACE, NEL (0x85) and NBSP (0xA0).  The operator
  \<^verbatim>\<open>sub in s\<close> on strings is \<open>sublist sub s\<close> and \<^verbatim>\<open>s.startswith(p)\<close> is
  \<open>prefix p s\<close>.
\<close>

definition isspace :: "char \<Rightarrow> bool" where
  "isspace c =
     (let n = (of_char c :: nat)
      in (9 \<le> n \<and> n \<le> 13) \<or> (28 \<le> n \<and> n \<le> 32) \<or> n = 133 \<or> n = 160)"

text \<open>\<^verbatim>\<open>s.strip()\<close>: leading and trailing whitespace removed.\<close>

definition strip :: "string \<Rightarrow> string" where
  "strip s = rev (dropWhile isspace (rev (dropWhile isspace s)))"

text \<open>
  \<^verbatim>\<open>s.split()\<close> with no separator: the maximal runs of non-whitespace characters, in
  order.  \<open>cur\<close> is the run being read, reversed.
\<close>

fun split_from :: "string \<Rightarrow> string \<Rightarrow> string list" where
  "split_from cur [] = (if cur = [] then [] else [rev cur])"
| "split_from cur (c # cs) =
     (if isspace c
      then (if cur = [] then split_from [] cs else rev cur # split_from [] cs)
      else split_from (c # cur) cs)"

definition split_ws :: "string \<Rightarrow> string list" where
  "split_ws s = split_from [] s"

text \<open>
  \<^verbatim>\<open>f.readlines()\<close> on the decoded text of a file: the text cut after every newline,
  each line keeping its newline; a last line without newline is kept as it is.
\<close>

fun readlines_from :: "string \<Rightarrow> string \<Rightarrow> string list" where
  "readlines_from cur [] = (if cur = [] then [] else [rev cur])"
| "readlines_from cur (c # cs) =
     (if c = CHR 0x0A then rev (c # cur) # readlines_from [] cs
      else readlines_from (c # cur) cs)"

definition readlines :: "string \<Rightarrow> string list" where
  "readlines s = readlines_from [] s"

section \<open>parse_lammps_log\<close>

text \<open>
  The builtin \<^verbatim>\<open>float\<close> is a parameter \<open>conv\<close> of the model: \<open>conv t = None\<close> when
  \<^verbatim>\<open>float(t)\<close> raises ValueError, and \<open>Some v\<close> when it returns \<open>v\<close>.  The list
  comprehension \<^verbatim>\<open>[float(x) for x in line.split()]\<close> raises as soon as one token is
  refused.
\<close>

fun float_all :: "(string \<Rightarrow> 'f option) \<Rightarrow> string list \<Rightarrow> 'f list option" where
  "float_all conv [] = Some []"
| "float_all conv (t # ts) =
     (case conv t of
        None \<Rightarrow> None
      | Some v \<Rightarrow> (case float_all conv ts of None \<Rightarrow> None | Some vs \<Rightarrow> Some (v # vs)))"

text \<open>The local variables of the loop of \<^verbatim>\<open>parse_lammps_log\<close>.\<close>

record 'f parser_state =
  data_sections :: "(string list \<times> 'f list list) list"
  in_data_section :: bool
  headers :: "string list"
  current_section :: "'f list list"

definition init_state :: "'f parser_state" where
  "init_state =
     \<lparr>data_sections = [], in_data_section = False, headers = [], current_section = []\<rparr>"

text \<open>The test of the first branch of the loop body, on the stripped line.\<close>

definition is_header :: "string \<Rightarrow> bool" where
  "is_header line = (sublist ''Step'' line \<and> sublist ''Temp'' line)"

text \<open>What the loop and the code after it append: the open section, when it has rows.\<close>

definition flush :: "'f parser_state \<Rightarrow> (string list \<times> 'f list list) list" where
  "flush st =
     (if in_data_section st \<and> current_section st \<noteq> []
      then data_sections st @ [(headers st, current_section st)]
      else data_sections st)"

text \<open>One iteration of \<^verbatim>\<open>for line in content\<close>.\<close>

definition parse_line ::
  "(string \<Rightarrow> 'f option) \<Rightarrow> 'f parser_state \<Rightarrow> string \<Rightarrow> 'f parser_state" where
  "parse_line conv st raw =
     (let line = strip raw in
      if is_header line then
        st\<lparr>data_sections := flush st, in_data_section := True,
           headers := split_ws line, current_section := []\<rparr>
      else if in_data_section st then
        (if line \<noteq> [] \<and> \<not> prefix ''Loop'' line \<and> \<not> prefix ''#'' line then
           (case float_all conv (split_ws line) of
              Some values \<Rightarrow>
                (if length values = length (headers st)
                 then st\<lparr>current_section := current_section st @ [values]\<rparr>
                 else st)
            | None \<Rightarrow> st\<lparr>in_data_section := False\<rparr>)
         else st)
      else st)"

text \<open>The state after the loop has read the lines \<open>content\<close>.\<close>

definition run_lines :: "(string \<Rightarrow> 'f option) \<Rightarrow> string list \<Rightarrow> 'f parser_state" where
  "run_lines conv content = foldl (parse_line conv) init_state content"

definition parse_lines ::
  "(string \<Rightarrow> 'f option) \<Rightarrow> string list \<Rightarrow> (string list \<times> 'f list list) list" where
  "parse_lines conv content = flush (run_lines conv content)"

text \<open>
  The argument is what opening and reading the file gives: \<open>None\<close> when \<^verbatim>\<open>open\<close> or
  \<^verbatim>\<open>readlines\<close> raises (the handler at the end of the function returns the empty
  list), \<open>Some text\<close> otherwise.
\<close>

definition parse_lammps_log ::
  "(string \<Rightarrow> 'f option) \<Rightarrow> string option \<Rightarrow> (string list \<times> 'f list list) list" where
  "parse_lammps_log conv log_file =
     (case log_file of
        None \<Rightarrow> []
      | Some text \<Rightarrow> parse_lines conv (readlines text))"

text \<open>
  A conversion for concrete inputs: \<^verbatim>\<open>float\<close> restricted to unsigned decimal integer
  literals, whose value is kept as a natural number.  Every other token is refused.
\<close>

definition isdigit :: "char \<Rightarrow> bool" where
  "isdigit c = (c \<in> set ''0123456789'')"

definition float_digits :: "string \<Rightarrow> nat option" where
  "float_digits t =
     (if t \<noteq> [] \<and> list_all isdigit t
      then Some (foldl (\<lambda>n c. 10 * n + (of_char c - 48)) 0 t)
      else None)"

text \<open>
  What the documentation of \<^verbatim>\<open>float\<close> says about the strings it accepts, as far as
  the parser depends on it: an accepted string is made of decimal digits, signs, the
  point, the underscore, the exponent letter, the letters of \<^verbatim>\<open>inf\<close>,
  \<^verbatim>\<open>infinity\<close> and \<^verbatim>\<open>nan\<close> in either case, and surrounding whitespace.
\<close>

definition float_chars :: "char set" where
  "float_chars = set ''0123456789+-._eEinfatyINFATY''"

definition float_like :: "(string \<Rightarrow> 'f option) \<Rightarrow> bool" where
  "float_like conv =
     (\<forall>t c. conv t \<noteq> None \<longrightarrow> c \<in> set t \<longrightarrow> c \<in> float_chars \<or> isspace c)"

text \<open>The property of the returned sections that the loop maintains.\<close>

definition section_ok :: "string list \<times> 'f list list \<Rightarrow> bool" where
  "section_ok s = (snd s \<noteq> [] \<and> list_all (\<lambda>row. length row = length (fst s)) (snd s))"

definition state_ok :: "'f parser_state \<Rightarrow> bool" where
  "state_ok st =
     (list_all section_ok (data_sections st) \<and>
      list_all (\<lambda>row. length row = length (headers st)) (current_section st))"

section \<open>The status poller: get_simulation_status\<close>

text \<open>
  The poller sees a snapshot of the file system.  A log file returned by
  \<^verbatim>\<open>glob\<close> has a base name, a modification time and its text, \<open>None\<close> when opening
  or reading it raises.  A phase directory has its \<^verbatim>\<open>COMPLETE\<close> flag and, when the
  \<^verbatim>\<open>logs\<close> directory exists, the list that \<^verbatim>\<open>glob\<close> returns for \<^verbatim>\<open>*.log\<close>.
  A phase directory that does not exist is \<open>None\<close>: a flag or a log inside a missing
  directory cannot be written down.
\<close>

record log_entry =
  log_name :: string
  log_mtime :: int
  log_text :: "string option"

record phase_dir =
  complete_flag :: bool
  logs :: "log_entry list option"

text \<open>
  \<open>pgrep_pipeline\<close> and \<open>pgrep_lmp\<close> are what the two \<^verbatim>\<open>subprocess.run\<close> calls
  give: \<open>None\<close> when the call raises, otherwise the return code (and the standard
  output).  \<open>phase_dirs i\<close> is the directory of phase \<open>i\<close>, \<open>plot_dir\<close> the names of
  the files in \<^verbatim>\<open>PLOT_DIR\<close>.
\<close>

record dashboard_env =
  pgrep_pipeline :: "int option"
  pgrep_lmp :: "(int \<times> string) option"
  phase_dirs :: "nat \<Rightarrow> phase_dir option"
  plot_dir :: "string set"

text \<open>
  The libraries: \<open>py_float\<close> is \<^verbatim>\<open>float\<close>; \<open>data_frame dat hs\<close> tells whether
  \<^verbatim>\<open>pd.DataFrame(dat, columns=hs)\<close> returns; \<open>draw dat hs col\<close> tells whether
  plotting column \<open>col\<close> against \<^verbatim>\<open>Step\<close> and saving the figure return, in which
  case the file is written.  \<open>False\<close> stands for a raised exception.
\<close>

record 'f pylib =
  py_float :: "string \<Rightarrow> 'f option"
  data_frame :: "'f list list \<Rightarrow> string list \<Rightarrow> bool"
  draw :: "'f list list \<Rightarrow> string list \<Rightarrow> string \<Rightarrow> bool"

record phase_info =
  phase :: nat
  status :: string
  progress :: rat
  log_files :: "string list"
  plots :: "string list"
  current_log :: "string option"

text \<open>The arguments of one call of \<^verbatim>\<open>create_plot\<close>.\<close>

record 'f plot_call =
  call_data :: "'f list list"
  call_headers :: "string list"
  call_title :: string
  call_filename :: string

text \<open>\<^verbatim>\<open>str(i)\<close> for a non-negative integer.\<close>

fun str_nat :: "nat \<Rightarrow> string" where
  "str_nat n =
     (if n < 10 then [char_of (48 + n)]
      else str_nat (n div 10) @ [char_of (48 + n mod 10)])"

declare str_nat.simps [simp del]

text \<open>\<^verbatim>\<open>s.split(sep)\<close> for a separator of one character.\<close>

fun split_on :: "char \<Rightarrow> string \<Rightarrow> string \<Rightarrow> string list" where
  "split_on sep cur [] = [rev cur]"
| "split_on sep cur (c # cs) =
     (if c = sep then rev cur # split_on sep [] cs else split_on sep (c # cur) cs)"

definition active_lammps_of :: "(int \<times> string) option \<Rightarrow> string list" where
  "active_lammps_of res =
     (case res of
        None \<Rightarrow> []
      | Some (returncode, stdout) \<Rightarrow>
          (if returncode = 0 then split_on (CHR 0x0A) [] (strip stdout) else []))"

definition plot_types :: "string list" where
  "plot_types = [''Temp'', ''PotEng'', ''KinEng'', ''Press'']"

definition plot_file :: "string \<Rightarrow> string \<Rightarrow> string" where
  "plot_file plot_base plot_type = plot_base @ ''_'' @ plot_type @ ''.png''"

text \<open>The plot files of a phase that exist in \<^verbatim>\<open>PLOT_DIR\<close>, in the order of the loop.\<close>

definition existing_plots :: "string \<Rightarrow> string set \<Rightarrow> string list" where
  "existing_plots plot_base dir =
     filter (\<lambda>f. f \<in> dir) (map (plot_file plot_base) plot_types)"

text \<open>
  \<^verbatim>\<open>create_plot\<close>: the loop over the plot types stops at the first exception, which
  the handler turns into the result \<open>False\<close>; the files saved before it stay.
\<close>

fun create_plot_loop ::
  "'f pylib \<Rightarrow> 'f plot_call \<Rightarrow> string list \<Rightarrow> string set \<Rightarrow> bool \<times> string set" where
  "create_plot_loop lib c [] dir = (True, dir)"
| "create_plot_loop lib c (col # cols) dir =
     (if col \<in> set (call_headers c) then
        (if draw lib (call_data c) (call_headers c) col
         then create_plot_loop lib c cols (insert (plot_file (call_filename c) col) dir)
         else (False, dir))
      else create_plot_loop lib c cols dir)"

definition create_plot :: "'f pylib \<Rightarrow> 'f plot_call \<Rightarrow> string set \<Rightarrow> bool \<times> string set" where
  "create_plot lib c dir =
     (if data_frame lib (call_data c) (call_headers c)
      then create_plot_loop lib c plot_types dir
      else (False, dir))"

text \<open>
  \<^verbatim>\<open>max(log_files, key=os.path.getmtime)\<close>: the first file among those with the
  greatest modification time.
\<close>

fun latest_of :: "log_entry \<Rightarrow> log_entry list \<Rightarrow> log_entry" where
  "latest_of best [] = best"
| "latest_of best (l # ls) = latest_of (if log_mtime best < log_mtime l then l else best) ls"

text \<open>
  \<^verbatim>\<open>min(95, max(10, len(content) / 10000 * 100))\<close>, with the quotient taken exactly.
\<close>

definition estimate_progress :: "nat \<Rightarrow> rat" where
  "estimate_progress n = min 95 (max 10 (of_nat n / 10000 * 100))"

text \<open>
  What one iteration of the loop over the phases yields: the entry appended to
  \<^verbatim>\<open>status["phases"]\<close>, the calls of \<^verbatim>\<open>create_plot\<close> it made, the content of
  \<^verbatim>\<open>PLOT_DIR\<close> after it, and whether it counted the phase as completed.
\<close>

record 'f phase_outcome =
  info :: phase_info
  new_calls :: "'f plot_call list"
  plots_after :: "string set"
  completed :: bool

definition not_started :: "nat \<Rightarrow> phase_info" where
  "not_started i =
     \<lparr>phase = i, status = ''Not Started'', progress = 0, log_files = [], plots = [],
      current_log = None\<rparr>"

text \<open>
  The branch that analyses the most recent log file, in its two parts.  The first looks
  for the plot files of the phase and, when there is none, parses the log and plots
  its last section: it yields the entry's \<^verbatim>\<open>plots\<close>, the calls of
  \<^verbatim>\<open>create_plot\<close> and the content of \<^verbatim>\<open>PLOT_DIR\<close> afterwards.
\<close>

definition plot_base_of :: "nat \<Rightarrow> string" where
  "plot_base_of i = ''phase'' @ str_nat i @ ''_latest''"

definition plot_latest ::
  "'f pylib \<Rightarrow> nat \<Rightarrow> log_entry \<Rightarrow> string set \<Rightarrow> string list \<times> 'f plot_call list \<times> string set" where
  "plot_latest lib i latest_log dir =
     (let found = existing_plots (plot_base_of i) dir
      in if found \<noteq> [] then (found, [], dir)
         else
           (let sections = parse_lammps_log (py_float lib) (log_text latest_log)
            in if sections \<noteq> [] then
                 (let c = \<lparr>call_data = snd (last sections), call_headers = fst (last sections),
                           call_title = ''Phase '' @ str_nat i,
                           call_filename = plot_base_of i\<rparr>;
                      dir' = snd (create_plot lib c dir)
                  in (existing_plots (plot_base_of i) dir', [c], dir'))
               else ([], [], dir)))"

text \<open>
  The second part estimates the progress: it yields the status, the progress and
  whether the phase counts as completed.  The handler of the \<^verbatim>\<open>try\<close> is the case
  of a log that cannot be read.
\<close>

definition estimate_latest :: "string list \<Rightarrow> nat \<Rightarrow> log_entry \<Rightarrow> string \<times> rat \<times> bool" where
  "estimate_latest active i latest_log =
     (case log_text latest_log of
        None \<Rightarrow> (''Unknown'', 0, False)
      | Some content \<Rightarrow>
          (if sublist ''Loop time'' content then (''Complete'', 100, True)
           else (if str_nat i \<in> set active then ''Running'' else ''Paused'',
                 estimate_progress (length content), False)))"

definition analyse_latest ::
  "'f pylib \<Rightarrow> string list \<Rightarrow> nat \<Rightarrow> log_entry \<Rightarrow> phase_info \<Rightarrow> string set \<Rightarrow> 'f phase_outcome" where
  "analyse_latest lib active i latest_log info0 dir =
     (case plot_latest lib i latest_log dir of
        (shown, calls, dir') \<Rightarrow>
          (case estimate_latest active i latest_log of
             (st, pr, done) \<Rightarrow>
               \<lparr>info = info0\<lparr>current_log := Some (log_name latest_log), plots := shown,
                              status := st, progress := pr\<rparr>,
                new_calls = calls, plots_after = dir', completed = done\<rparr>))"

text \<open>The body of \<^verbatim>\<open>for i, phase_dir in enumerate(PHASE_DIRS, 1)\<close>.\<close>

definition inspect_phase ::
  "'f pylib \<Rightarrow> string list \<Rightarrow> nat \<Rightarrow> phase_dir option \<Rightarrow> string set \<Rightarrow> 'f phase_outcome" where
  "inspect_phase lib active i pdir dir =
     (let idle = \<lparr>info = not_started i, new_calls = [], plots_after = dir, completed = False\<rparr>
      in case pdir of
           None \<Rightarrow> idle
         | Some d \<Rightarrow>
             (case logs d of
                None \<Rightarrow> idle
              | Some [] \<Rightarrow> idle
              | Some (l # ls) \<Rightarrow>
                  (let info0 = (not_started i)\<lparr>log_files := map log_name (l # ls)\<rparr>
                   in if complete_flag d
                      then \<lparr>info = info0\<lparr>status := ''Complete'', progress := 100\<rparr>,
                            new_calls = [], plots_after = dir, completed = True\<rparr>
                      else analyse_latest lib active i (latest_of l ls) info0 dir)))"

text \<open>The variables that the loop over the phases updates.\<close>

record 'f poll_state =
  phases_acc :: "phase_info list"
  completed_phases :: nat
  plot_files :: "string set"
  calls_acc :: "'f plot_call list"

definition poll_phase ::
  "'f pylib \<Rightarrow> string list \<Rightarrow> dashboard_env \<Rightarrow> 'f poll_state \<Rightarrow> nat \<Rightarrow> 'f poll_state" where
  "poll_phase lib active env st i =
     (let out = inspect_phase lib active i (phase_dirs env i) (plot_files st)
      in \<lparr>phases_acc = phases_acc st @ [info out],
          completed_phases = (if completed out then completed_phases st + 1
                              else completed_phases st),
          plot_files = plots_after out,
          calls_acc = calls_acc st @ new_calls out\<rparr>)"

text \<open>
  The returned dictionary, together with the effects of the call: the calls of
  \<^verbatim>\<open>create_plot\<close> in order and the content of \<^verbatim>\<open>PLOT_DIR\<close> afterwards.
\<close>

record 'f poll_result =
  phases :: "phase_info list"
  overall_progress :: rat
  pipeline_running :: bool
  active_lammps :: nat
  plot_calls :: "'f plot_call list"
  plot_dir_after :: "string set"

definition get_simulation_status :: "'f pylib \<Rightarrow> dashboard_env \<Rightarrow> 'f poll_result" where
  "get_simulation_status lib env =
     (let active = active_lammps_of (pgrep_lmp env);
          st = foldl (poll_phase lib active env)
                 \<lparr>phases_acc = [], completed_phases = 0, plot_files = plot_dir env,
                  calls_acc = []\<rparr>
                 [1, 2, 3, 4]
      in \<lparr>phases = phases_acc st,
          overall_progress = (if completed_phases st = 4 then 100
                              else sum_list (map progress (phases_acc st)) / 4),
          pipeline_running = (pgrep_pipeline env = Some 0),
          active_lammps = length active,
          plot_calls = calls_acc st,
          plot_dir_after = plot_files st\<rparr>)"

text \<open>A library for concrete inputs: every plotting call returns.\<close>

definition sample_lib :: "nat pylib" where
  "sample_lib = \<lparr>py_float = float_digits, data_frame = (\<lambda>dat hs. True),
                 draw = (\<lambda>dat hs col. True)\<rparr>"

section \<open>The report generator: load_data, the analyses and main\<close>

definition DATA_DIR :: string where
  "DATA_DIR = ''../output/''"

definition PARTICLE_SIZE_FILE :: string where
  "PARTICLE_SIZE_FILE = DATA_DIR @ ''particle_size_dist.dat''"

definition COMPOSITION_FILE :: string where
  "COMPOSITION_FILE = DATA_DIR @ ''composition_analysis.dat''"

definition RDF_FILE :: string where
  "RDF_FILE = DATA_DIR @ ''rdf_nanoparticles.dat''"

definition THERMO_FILE :: string where
  "THERMO_FILE = DATA_DIR @ ''thermodynamic_analysis.dat''"

definition EVOLUTION_FILE :: string where
  "EVOLUTION_FILE = DATA_DIR @ ''cluster_evolution.dat''"

text \<open>
  What the script meets outside itself.  \<open>path_exists\<close> is \<^verbatim>\<open>os.path.exists\<close> and
  \<open>loadtxt\<close> is \<^verbatim>\<open>np.loadtxt\<close> on a path, \<open>Inl\<close> an exception.  The statistics and
  plotting code of an analysis, after its test of the loaded data, is a function of
  the data that raises or returns the result of the analysis (Python's \<^verbatim>\<open>None\<close> is
  \<open>None\<close>); \<open>thermo_body\<close> is the block under the existence test of
  \<^verbatim>\<open>analyze_thermodynamics\<close>, and the last two fields are the calls of
  \<^verbatim>\<open>generate_report\<close> and \<^verbatim>\<open>generate_pdf_report\<close>.
\<close>

record ('a, 'r, 'e) report_env =
  path_exists :: "string \<Rightarrow> bool"
  loadtxt :: "string \<Rightarrow> 'e + 'a"
  size_body :: "'a \<Rightarrow> 'e + 'r option"
  composition_body :: "'a \<Rightarrow> 'e + 'r option"
  structure_body :: "'a \<Rightarrow> 'e + 'r option"
  thermo_body :: "'e + 'r"
  evolution_body :: "'a \<Rightarrow> 'e + 'r option"
  html_report :: "'e + unit"
  pdf_report :: "'e + unit"

definition load_data :: "('a, 'r, 'e) report_env \<Rightarrow> string \<Rightarrow> 'a option" where
  "load_data env filename =
     (if path_exists env filename
      then (case loadtxt env filename of Inl e \<Rightarrow> None | Inr a \<Rightarrow> Some a)
      else None)"

definition analyze_size_distribution :: "('a, 'r, 'e) report_env \<Rightarrow> 'e + 'r option" where
  "analyze_size_distribution env =
     (case load_data env PARTICLE_SIZE_FILE of
        None \<Rightarrow> Inr None
      | Some sizes_data \<Rightarrow> size_body env sizes_data)"

definition analyze_composition :: "('a, 'r, 'e) report_env \<Rightarrow> 'e + 'r option" where
  "analyze_composition env =
     (case load_data env COMPOSITION_FILE of
        None \<Rightarrow> Inr None
      | Some comp_data \<Rightarrow> composition_body env comp_data)"

definition analyze_structure :: "('a, 'r, 'e) report_env \<Rightarrow> 'e + 'r option" where
  "analyze_structure env =
     (case load_data env RDF_FILE of
        None \<Rightarrow> Inr None
      | Some rdf_data \<Rightarrow> structure_body env rdf_data)"

text \<open>Here the whole block is inside \<^verbatim>\<open>try\<close>: an exception ends in \<^verbatim>\<open>return None\<close>.\<close>

definition analyze_thermodynamics :: "('a, 'r, 'e) report_env \<Rightarrow> 'e + 'r option" where
  "analyze_thermodynamics env =
     (if path_exists env THERMO_FILE
      then (case thermo_body env of Inl e \<Rightarrow> Inr None | Inr r \<Rightarrow> Inr (Some r))
      else Inr None)"

definition analyze_time_evolution :: "('a, 'r, 'e) report_env \<Rightarrow> 'e + 'r option" where
  "analyze_time_evolution env =
     (case load_data env EVOLUTION_FILE of
        None \<Rightarrow> Inr None
      | Some evolution_data \<Rightarrow> evolution_body env evolution_data)"

text \<open>
  \<^verbatim>\<open>main\<close> calls seven functions in a row and uses none of the results.  Its run is
  the list of the calls it made and the exception that ended it, if any.
\<close>

datatype analysis = Size | Composition | Structure | Thermodynamics | TimeEvolution

datatype call = Analyze analysis | GenerateReport | GeneratePdfReport

definition input_file :: "analysis \<Rightarrow> string" where
  "input_file k =
     (case k of Size \<Rightarrow> PARTICLE_SIZE_FILE | Composition \<Rightarrow> COMPOSITION_FILE
      | Structure \<Rightarrow> RDF_FILE | Thermodynamics \<Rightarrow> THERMO_FILE
      | TimeEvolution \<Rightarrow> EVOLUTION_FILE)"

definition analyze :: "('a, 'r, 'e) report_env \<Rightarrow> analysis \<Rightarrow> 'e + 'r option" where
  "analyze env k =
     (case k of Size \<Rightarrow> analyze_size_distribution env
      | Composition \<Rightarrow> analyze_composition env
      | Structure \<Rightarrow> analyze_structure env
      | Thermodynamics \<Rightarrow> analyze_thermodynamics env
      | TimeEvolution \<Rightarrow> analyze_time_evolution env)"

definition returns :: "'e + 'b \<Rightarrow> bool" where
  "returns res = (case res of Inl e \<Rightarrow> False | Inr v \<Rightarrow> True)"

fun run_calls :: "(call \<times> bool \<times> 'e option) list \<Rightarrow> call list \<times> 'e option" where
  "run_calls [] = ([], None)"
| "run_calls ((c, ok, exn) # rest) =
     (if ok then (case run_calls rest of (cs, res) \<Rightarrow> (c # cs, res)) else ([c], exn))"

definition outcome :: "'e + 'b \<Rightarrow> bool \<times> 'e option" where
  "outcome res = (case res of Inl e \<Rightarrow> (False, Some e) | Inr v \<Rightarrow> (True, None))"

definition main :: "('a, 'r, 'e) report_env \<Rightarrow> call list \<times> 'e option" where
  "main env =
     run_calls
       [(Analyze Size, outcome (analyze_size_distribution env)),
        (Analyze Composition, outcome (analyze_composition env)),
        (Analyze Structure, outcome (analyze_structure env)),
        (Analyze Thermodynamics, outcome (analyze_thermodynamics env)),
        (Analyze TimeEvolution, outcome (analyze_time_evolution env)),
        (GenerateReport, outcome (html_report env)),
        (GeneratePdfReport, outcome (pdf_report env))]"

text \<open>An environment for concrete inputs: only the composition file exists.\<close>

definition sample_report_env :: "(nat, nat, string) report_env" where
  "sample_report_env =
     \<lparr>path_exists = (\<lambda>f. f = COMPOSITION_FILE),
      loadtxt = (\<lambda>f. Inr 7),
      size_body = (\<lambda>a. Inl ''ValueError''),
      composition_body = (\<lambda>a. Inr (Some a)),
      structure_body = (\<lambda>a. Inl ''IndexError''),
      thermo_body = Inl ''TypeError'',
      evolution_body = (\<lambda>a. Inl ''IndexError''),
      html_report = Inr (),
      pdf_report = Inr ()\<rparr>"

text \<open>
  A second environment: the size file is missing, the composition file exists and the
  body of the composition analysis raises.
\<close>

definition raising_report_env :: "(nat, nat, string) report_env" where
  "raising_report_env =
     \<lparr>path_exists = (\<lambda>f. f = COMPOSITION_FILE),
      loadtxt = (\<lambda>f. Inr 7),
      size_body = (\<lambda>a. Inr (Some a)),
      composition_body = (\<lambda>a. Inl ''IndexError''),
      structure_body = (\<lambda>a. Inr (Some a)),
      thermo_body = Inr 1,
      evolution_body = (\<lambda>a. Inr (Some a)),
      html_report = Inr (),
      pdf_report = Inr ()\<rparr>"

section \<open>A snapshot for concrete inputs\<close>

text \<open>
  Phase 1 has the flag and a log; the log of phase 2 cannot be read; the log of phase 3
  holds two sections and no end marker; the directory of phase 4 holds the flag and no
  \<^verbatim>\<open>logs\<close> directory.  \<^verbatim>\<open>pgrep\<close> reports the processes 4211 and 3.
\<close>

definition sample_env :: dashboard_env where
  "sample_env =
     \<lparr>pgrep_pipeline = Some 1,
      pgrep_lmp = Some (0, ''4211\<newline>3\<newline>''),
      phase_dirs = (\<lambda>i.
        if i = 1 then
          Some \<lparr>complete_flag = True,
                logs = Some [\<lparr>log_name = ''run.log'', log_mtime = 5, log_text = Some ''no data''\<rparr>]\<rparr>
        else if i = 2 then
          Some \<lparr>complete_flag = False,
                logs = Some [\<lparr>log_name = ''run.log'', log_mtime = 5, log_text = None\<rparr>]\<rparr>
        else if i = 3 then
          Some \<lparr>complete_flag = False,
                logs = Some [\<lparr>log_name = ''old.log'', log_mtime = 2, log_text = Some ''Loop time''\<rparr>,
                             \<lparr>log_name = ''run.log'', log_mtime = 5,
                              log_text = Some ''Step Temp\<newline>1 2\<newline>Step Temp Press\<newline>1 2 3\<newline>''\<rparr>]\<rparr>
        else if i = 4 then Some \<lparr>complete_flag = True, logs = None\<rparr>
        else None),
      plot_dir = {}\<rparr>"

section \<open>Tokens and characters\<close>

lemma split_from_covers:
  "c \<in> set cur \<or> (c \<in> set s \<and> \<not> isspace c) \<Longrightarrow> \<exists>t \<in> set (split_from cur s). c \<in> set t"
  by (induction s arbitrary: cur) auto

lemma split_ws_covers:
  "c \<in> set s \<Longrightarrow> \<not> isspace c \<Longrightarrow> \<exists>t \<in> set (split_ws s). c \<in> set t"
  unfolding split_ws_def using split_from_covers [of c "[]" s] by simp

lemma split_ws_Nil: "split_ws [] = []"
  by (simp add: split_ws_def)

lemma split_from_sublist: "t \<in> set (split_from cur s) \<Longrightarrow> sublist t (rev cur @ s)"
proof (induction s arbitrary: cur)
  case Nil
  then show ?case by (auto split: if_splits)
next
  case (Cons c cs)
  show ?case
  proof (cases "isspace c")
    case True
    with Cons.prems have "t = rev cur \<or> t \<in> set (split_from [] cs)"
      by (auto split: if_splits)
    then show ?thesis
    proof
      assume "t = rev cur"
      then show ?thesis by simp
    next
      assume "t \<in> set (split_from [] cs)"
      then have "sublist t cs" using Cons.IH [of "[]"] by simp
      then show ?thesis by (simp add: sublist_append sublist_Cons_right)
    qed
  next
    case False
    with Cons.prems have "t \<in> set (split_from (c # cur) cs)" by simp
    then show ?thesis using Cons.IH [of "c # cur"] by simp
  qed
qed

text \<open>A line that has \<^verbatim>\<open>Step\<close> and \<^verbatim>\<open>Temp\<close> among its tokens passes the header test.\<close>

lemma tokens_imp_is_header:
  "''Step'' \<in> set (split_ws line) \<Longrightarrow> ''Temp'' \<in> set (split_ws line) \<Longrightarrow> is_header line"
  unfolding split_ws_def is_header_def
  using split_from_sublist [of _ "[]" line] by simp

lemma header_has_token: "is_header line \<Longrightarrow> split_ws line \<noteq> []"
proof -
  assume "is_header line"
  then have "sublist ''Step'' line" by (simp add: is_header_def)
  then have "set ''Step'' \<subseteq> set line" by (rule set_mono_sublist)
  then have "CHR ''S'' \<in> set line" by simp
  moreover have "\<not> isspace (CHR ''S'')" by (simp add: isspace_def)
  ultimately obtain t where "t \<in> set (split_ws line)" using split_ws_covers by blast
  then show ?thesis by auto
qed

section \<open>Lines of numbers\<close>

lemma float_all_length: "float_all conv ts = Some vs \<Longrightarrow> length vs = length ts"
  by (induction ts arbitrary: vs) (auto split: option.splits)

lemma float_all_accepts: "float_all conv ts = Some vs \<Longrightarrow> t \<in> set ts \<Longrightarrow> conv t \<noteq> None"
  by (induction ts arbitrary: vs) (auto split: option.splits)

lemma float_line_chars:
  assumes "float_like conv" and "float_all conv (split_ws line) = Some vs"
    and "c \<in> set line"
  shows "c \<in> float_chars \<or> isspace c"
proof (cases "isspace c")
  case False
  with assms(3) obtain t where t: "t \<in> set (split_ws line)" "c \<in> set t"
    using split_ws_covers by blast
  from float_all_accepts [OF assms(2) t(1)] have "conv t \<noteq> None" .
  with assms(1) t(2) show ?thesis unfolding float_like_def by blast
qed simp

lemma not_float_char:
  "c \<in> {CHR ''S'', CHR ''L'', CHR ''#''} \<Longrightarrow> \<not> (c \<in> float_chars \<or> isspace c)"
  by (auto simp: float_chars_def isspace_def)

text \<open>
  A line whose tokens are all accepted by \<^verbatim>\<open>float\<close> is not a header line and starts
  neither with \<^verbatim>\<open>Loop\<close> nor with \<^verbatim>\<open>#\<close>.
\<close>

lemma float_line_plain:
  assumes "float_like conv" and "float_all conv (split_ws line) = Some vs"
  shows "\<not> is_header line" and "\<not> prefix ''Loop'' line" and "\<not> prefix ''#'' line"
proof -
  have no: "c \<in> {CHR ''S'', CHR ''L'', CHR ''#''} \<Longrightarrow> c \<notin> set line" for c
    using float_line_chars [OF assms] not_float_char by blast
  show "\<not> is_header line"
  proof
    assume "is_header line"
    then have "sublist ''Step'' line" by (simp add: is_header_def)
    then have "set ''Step'' \<subseteq> set line" by (rule set_mono_sublist)
    then have "CHR ''S'' \<in> set line" by simp
    with no show False by blast
  qed
  show "\<not> prefix ''Loop'' line"
  proof
    assume "prefix ''Loop'' line"
    then have "set ''Loop'' \<subseteq> set line" by (rule set_mono_prefix)
    then have "CHR ''L'' \<in> set line" by simp
    with no show False by blast
  qed
  show "\<not> prefix ''#'' line"
  proof
    assume "prefix ''#'' line"
    then have "set ''#'' \<subseteq> set line" by (rule set_mono_prefix)
    then have "CHR ''#'' \<in> set line" by simp
    with no show False by blast
  qed
qed

lemma float_digits_float_like: "float_like float_digits"
  unfolding float_like_def
proof (intro allI impI)
  fix t c
  assume "float_digits t \<noteq> None" and "c \<in> set t"
  then have "isdigit c" by (auto simp: float_digits_def list_all_iff split: if_splits)
  then show "c \<in> float_chars \<or> isspace c" by (auto simp: isdigit_def float_chars_def)
qed

section \<open>The invariant of the parser\<close>

lemma flush_ok: "state_ok st \<Longrightarrow> list_all section_ok (flush st)"
  by (simp add: state_ok_def flush_def section_ok_def)

lemma parse_line_ok: "state_ok st \<Longrightarrow> state_ok (parse_line conv st raw)"
proof -
  assume ok: "state_ok st"
  have hdr: "state_ok (st\<lparr>data_sections := flush st, in_data_section := True,
                headers := hs, current_section := []\<rparr>)" for hs
    using flush_ok [OF ok] by (simp add: state_ok_def)
  have row: "length vals = length (headers st) \<Longrightarrow>
       state_ok (st\<lparr>current_section := current_section st @ [vals]\<rparr>)" for vals
    using ok by (simp add: state_ok_def)
  have off: "state_ok (st\<lparr>in_data_section := False\<rparr>)"
    using ok by (simp add: state_ok_def)
  show ?thesis
    unfolding parse_line_def Let_def using ok hdr row off
    by (simp split: option.split)
qed

lemma foldl_parse_line_ok:
  "state_ok st \<Longrightarrow> state_ok (foldl (parse_line conv) st content)"
  by (induction content arbitrary: st) (simp_all add: parse_line_ok)

lemma init_state_ok: "state_ok init_state"
  by (simp add: state_ok_def init_state_def)

lemma parse_lines_ok: "list_all section_ok (parse_lines conv content)"
  unfolding parse_lines_def run_lines_def
  by (rule flush_ok [OF foldl_parse_line_ok [OF init_state_ok]])

lemma parse_lammps_log_ok: "list_all section_ok (parse_lammps_log conv log_file)"
  by (simp add: parse_lammps_log_def parse_lines_ok split: option.split)

text \<open>
  C10.  Whatever the file, every section that \<^verbatim>\<open>parse_lammps_log\<close> returns has at
  least one row, and each of its rows has as many values as the section has header
  tokens.
\<close>

theorem sections_nonempty_rectangular:
  assumes "(hs, rows) \<in> set (parse_lammps_log conv log_file)"
  shows "rows \<noteq> [] \<and> (\<forall>row \<in> set rows. length row = length hs)"
proof -
  have "section_ok (hs, rows)"
    using parse_lammps_log_ok [of conv log_file] assms by (simp add: list_all_iff)
  then show ?thesis by (simp add: section_ok_def list_all_iff)
qed

theorem sections_nonempty_rectangular_witness:
  "([''Step'', ''Temp''], [[1, 2], [4, 5]])
     \<in> set (parse_lammps_log float_digits (Some ''Step Temp\<newline>1 2\<newline>3\<newline>4 5\<newline>''))
   \<and> [[1, 2], [4, 5::nat]] \<noteq> []
   \<and> list_all (\<lambda>row. length row = length [''Step'', ''Temp'']) [[1, 2], [4, 5::nat]]"
proof -
  have mem: "([''Step'', ''Temp''], [[1, 2], [4, 5]])
     \<in> set (parse_lammps_log float_digits (Some ''Step Temp\<newline>1 2\<newline>3\<newline>4 5\<newline>''))"
    by code_simp
  from mem sections_nonempty_rectangular [OF mem] show ?thesis by (simp add: list_all_iff)
qed

section \<open>Lines that the parser skips\<close>

lemma parse_line_skip_mismatch:
  assumes "float_like conv" and "in_data_section st"
    and "float_all conv (split_ws (strip raw)) = Some vs"
    and "length vs \<noteq> length (headers st)"
  shows "parse_line conv st raw = st"
  using assms float_line_plain(1) [OF assms(1,3)]
  by (simp add: parse_line_def Let_def)

lemma parse_line_skip_marker:
  assumes "prefix ''Loop'' (strip raw) \<or> prefix ''#'' (strip raw)"
    and "\<not> is_header (strip raw)"
  shows "parse_line conv st raw = st"
  using assms by (auto simp add: parse_line_def Let_def)

lemma run_lines_snoc: "run_lines conv (pre @ [raw]) = parse_line conv (run_lines conv pre) raw"
  by (simp add: run_lines_def)

lemma parse_lines_drop_line:
  assumes "parse_line conv (run_lines conv pre) raw = run_lines conv pre"
  shows "parse_lines conv (pre @ raw # post) = parse_lines conv (pre @ post)"
  using assms by (simp add: parse_lines_def run_lines_def)

text \<open>
  C2, as the code has it.  Inside a data section, a line whose tokens all convert to
  floats and whose token count differs from the header count is skipped: no exception
  is raised, the state of the parser after the line is the state before it, so the
  section stays open, and the result is the one of the log without that line.
\<close>

theorem arity_mismatch_row_skipped:
  assumes "float_like conv"
    and "in_data_section (run_lines conv pre)"
    and "float_all conv (split_ws (strip raw)) = Some vs"
    and "length (split_ws (strip raw)) \<noteq> length (headers (run_lines conv pre))"
  shows "run_lines conv (pre @ [raw]) = run_lines conv pre \<and>
         parse_lines conv (pre @ raw # post) = parse_lines conv (pre @ post)"
proof -
  have "length vs \<noteq> length (headers (run_lines conv pre))"
    using float_all_length [OF assms(3)] assms(4) by simp
  then have same: "parse_line conv (run_lines conv pre) raw = run_lines conv pre"
    using parse_line_skip_mismatch [OF assms(1,2,3)] by simp
  then show ?thesis
    using parse_lines_drop_line [OF same] by (simp add: run_lines_snoc)
qed

theorem arity_mismatch_row_skipped_witness:
  "in_data_section (run_lines float_digits [''Step Temp\<newline>'', ''1 2\<newline>''])
   \<and> float_all float_digits (split_ws (strip ''3\<newline>'')) = Some [3]
   \<and> length (split_ws (strip ''3\<newline>''))
       \<noteq> length (headers (run_lines float_digits [''Step Temp\<newline>'', ''1 2\<newline>'']))
   \<and> run_lines float_digits ([''Step Temp\<newline>'', ''1 2\<newline>''] @ [''3\<newline>''])
       = run_lines float_digits [''Step Temp\<newline>'', ''1 2\<newline>'']
   \<and> parse_lines float_digits ([''Step Temp\<newline>'', ''1 2\<newline>''] @ ''3\<newline>'' # [''4 5\<newline>''])
       = parse_lines float_digits ([''Step Temp\<newline>'', ''1 2\<newline>''] @ [''4 5\<newline>''])"
proof -
  have h2: "in_data_section (run_lines float_digits [''Step Temp\<newline>'', ''1 2\<newline>''])"
    by code_simp
  have h3: "float_all float_digits (split_ws (strip ''3\<newline>'')) = Some [3]"
    by code_simp
  have h4: "length (split_ws (strip ''3\<newline>''))
       \<noteq> length (headers (run_lines float_digits [''Step Temp\<newline>'', ''1 2\<newline>'']))"
    by code_simp
  from h2 h3 h4
    arity_mismatch_row_skipped [OF float_digits_float_like h2 h3 h4, of "[''4 5\<newline>'']"]
  show ?thesis by blast
qed

text \<open>
  The claim of C2 fails on this log: the row \<^verbatim>\<open>3\<close> has one token under a header of
  two, the section is still open after it, and the row \<^verbatim>\<open>4 5\<close> that follows is
  appended to the same section.
\<close>

theorem arity_mismatch_counterexample:
  "in_data_section (run_lines float_digits [''Step Temp\<newline>'', ''1 2\<newline>''])
   \<and> float_all float_digits (split_ws (strip ''3\<newline>'')) = Some [3]
   \<and> headers (run_lines float_digits [''Step Temp\<newline>'', ''1 2\<newline>'']) = [''Step'', ''Temp'']
   \<and> in_data_section (run_lines float_digits [''Step Temp\<newline>'', ''1 2\<newline>'', ''3\<newline>''])
   \<and> parse_lammps_log float_digits (Some ''Step Temp\<newline>1 2\<newline>3\<newline>4 5\<newline>'')
       = [([''Step'', ''Temp''], [[1, 2], [4, 5]])]"
  by code_simp

text \<open>
  C3, as the code has it.  A line that starts with \<^verbatim>\<open>Loop\<close> or with \<^verbatim>\<open>#\<close> and
  does not pass the header test is skipped: the state of the parser after the line is
  the state before it, so an open section stays open, and the result is the one of
  the log without that line.
\<close>

theorem marker_line_skipped:
  assumes "prefix ''Loop'' (strip raw) \<or> prefix ''#'' (strip raw)"
    and "\<not> is_header (strip raw)"
  shows "run_lines conv (pre @ [raw]) = run_lines conv pre \<and>
         parse_lines conv (pre @ raw # post) = parse_lines conv (pre @ post)"
proof -
  have same: "parse_line conv (run_lines conv pre) raw = run_lines conv pre"
    using parse_line_skip_marker [OF assms] .
  then show ?thesis
    using parse_lines_drop_line [OF same] by (simp add: run_lines_snoc)
qed

theorem marker_line_skipped_witness:
  "prefix ''#'' (strip ''# thermo output\<newline>'')
   \<and> \<not> is_header (strip ''# thermo output\<newline>'')
   \<and> in_data_section (run_lines float_digits [''Step Temp\<newline>'', ''1 2\<newline>''])
   \<and> run_lines float_digits ([''Step Temp\<newline>'', ''1 2\<newline>''] @ [''# thermo output\<newline>''])
       = run_lines float_digits [''Step Temp\<newline>'', ''1 2\<newline>'']
   \<and> parse_lines float_digits
        ([''Step Temp\<newline>'', ''1 2\<newline>''] @ ''# thermo output\<newline>'' # [''3 4\<newline>''])
       = parse_lines float_digits ([''Step Temp\<newline>'', ''1 2\<newline>''] @ [''3 4\<newline>''])"
proof -
  have h1: "prefix ''#'' (strip ''# thermo output\<newline>'')" by code_simp
  have h2: "\<not> is_header (strip ''# thermo output\<newline>'')" by code_simp
  have h3: "in_data_section (run_lines float_digits [''Step Temp\<newline>'', ''1 2\<newline>''])"
    by code_simp
  from h1 h2 h3
    marker_line_skipped [OF disjI2 [OF h1] h2, of float_digits
      "[''Step Temp\<newline>'', ''1 2\<newline>'']" "[''3 4\<newline>'']"]
  show ?thesis by blast
qed

text \<open>
  The claim of C3 fails on this log: the section is open when the line
  \<^verbatim>\<open>Loop time of 5\<close> is read, it is still open afterwards, and the row \<^verbatim>\<open>3 4\<close>
  that follows is appended to it.
\<close>

theorem marker_line_counterexample:
  "in_data_section (run_lines float_digits [''Step Temp\<newline>'', ''1 2\<newline>''])
   \<and> prefix ''Loop'' (strip ''Loop time of 5\<newline>'')
   \<and> in_data_section (run_lines float_digits [''Step Temp\<newline>'', ''1 2\<newline>'', ''Loop time of 5\<newline>''])
   \<and> parse_lammps_log float_digits (Some ''Step Temp\<newline>1 2\<newline>Loop time of 5\<newline>3 4\<newline>'')
       = [([''Step'', ''Temp''], [[1, 2], [3, 4]])]"
  by code_simp


section \<open>A header line followed by rows\<close>

lemma parse_line_row:
  assumes "float_like conv" and "in_data_section st" and "headers st \<noteq> []"
    and "float_all conv (split_ws (strip raw)) = Some vs"
    and "length vs = length (headers st)"
  shows "parse_line conv st raw = st\<lparr>current_section := current_section st @ [vs]\<rparr>"
proof -
  have "length (split_ws (strip raw)) = length vs"
    using float_all_length [OF assms(4)] by simp
  with assms(3,5) have "split_ws (strip raw) \<noteq> []" by auto
  then have "strip raw \<noteq> []" using split_ws_Nil by auto
  then show ?thesis
    using assms float_line_plain [OF assms(1,4)]
    by (simp add: parse_line_def Let_def)
qed

lemma foldl_rows:
  assumes "float_like conv"
  shows "in_data_section st \<Longrightarrow> headers st = hs \<Longrightarrow> hs \<noteq> [] \<Longrightarrow>
    list_all2 (\<lambda>raw vs. float_all conv (split_ws (strip raw)) = Some vs \<and>
                 length vs = length hs) rows vss \<Longrightarrow>
    foldl (parse_line conv) st rows = st\<lparr>current_section := current_section st @ vss\<rparr>"
proof (induction rows arbitrary: st vss)
  case Nil
  then show ?case by simp
next
  case (Cons raw rows)
  from Cons.prems(4) obtain vs vss' where vss: "vss = vs # vss'"
    and row: "float_all conv (split_ws (strip raw)) = Some vs" "length vs = length hs"
    and rest: "list_all2 (\<lambda>raw vs. float_all conv (split_ws (strip raw)) = Some vs \<and>
                 length vs = length hs) rows vss'"
    by (auto simp: list_all2_Cons1)
  let ?st = "st\<lparr>current_section := current_section st @ [vs]\<rparr>"
  have step: "parse_line conv st raw = ?st"
    using parse_line_row [OF assms Cons.prems(1) _ row(1)] Cons.prems(2,3) row(2) by simp
  have "foldl (parse_line conv) ?st rows = ?st\<lparr>current_section := current_section ?st @ vss'\<rparr>"
    using Cons.IH [of ?st vss'] Cons.prems(1,2,3) rest by simp
  with step vss show ?case by simp
qed

lemma parse_line_header_first:
  "is_header (strip raw) \<Longrightarrow>
   parse_line conv init_state raw =
     \<lparr>data_sections = [], in_data_section = True,
      headers = split_ws (strip raw), current_section = []\<rparr>"
  by (simp add: parse_line_def Let_def init_state_def flush_def)

lemma parse_lines_header_rows:
  assumes "float_like conv" and "is_header (strip hline)"
    and "list_all2 (\<lambda>raw vs. float_all conv (split_ws (strip raw)) = Some vs \<and>
                 length vs = length (split_ws (strip hline))) rows vss"
  shows "parse_lines conv (hline # rows) =
     (if rows = [] then [] else [(split_ws (strip hline), vss)])"
proof -
  let ?st = "\<lparr>data_sections = [], in_data_section = True,
      headers = split_ws (strip hline), current_section = []\<rparr> :: 'a parser_state"
  have ne: "split_ws (strip hline) \<noteq> []" using header_has_token [OF assms(2)] .
  have "run_lines conv (hline # rows) = foldl (parse_line conv) ?st rows"
    by (simp add: run_lines_def parse_line_header_first [OF assms(2)])
  also have "\<dots> = ?st\<lparr>current_section := current_section ?st @ vss\<rparr>"
    using foldl_rows [OF assms(1), of ?st "split_ws (strip hline)" rows vss] ne assms(3) by simp
  finally have "run_lines conv (hline # rows) = ?st\<lparr>current_section := vss\<rparr>" by simp
  moreover have "vss = [] \<longleftrightarrow> rows = []" using assms(3) by (auto simp: list_all2_conv_all_nth)
  ultimately show ?thesis by (simp add: parse_lines_def flush_def)
qed

text \<open>
  C5, as the code has it.  When the lines of a log are a header line followed by
  \<open>N \<ge> 1\<close> rows, each with as many tokens as the header and all of them accepted by
  \<^verbatim>\<open>float\<close>, \<^verbatim>\<open>parse_lammps_log\<close> returns exactly one section: its headers are the
  tokens of the header line and it has exactly \<open>N\<close> rows, the values of the rows in
  order.  The header line is any line that passes the test of the code; by
  \<open>tokens_imp_is_header\<close> a line with the tokens \<^verbatim>\<open>Step\<close> and \<^verbatim>\<open>Temp\<close> does.
\<close>

theorem header_and_rows_one_section:
  assumes "float_like conv"
    and "readlines text = hline # rows"
    and "is_header (strip hline)"
    and "rows \<noteq> []"
    and "\<forall>raw \<in> set rows. float_all conv (split_ws (strip raw)) \<noteq> None \<and>
           length (split_ws (strip raw)) = length (split_ws (strip hline))"
  shows "\<exists>rs. parse_lammps_log conv (Some text) = [(split_ws (strip hline), rs)] \<and>
           length rs = length rows \<and>
           list_all2 (\<lambda>raw vs. float_all conv (split_ws (strip raw)) = Some vs) rows rs"
proof -
  let ?vss = "map (\<lambda>raw. the (float_all conv (split_ws (strip raw)))) rows"
  have each: "float_all conv (split_ws (strip raw)) = Some (the (float_all conv (split_ws (strip raw))))
      \<and> length (the (float_all conv (split_ws (strip raw)))) = length (split_ws (strip hline))"
    if "raw \<in> set rows" for raw
  proof -
    from assms(5) that obtain vs where vs: "float_all conv (split_ws (strip raw)) = Some vs"
      and len: "length (split_ws (strip raw)) = length (split_ws (strip hline))"
      by auto
    from float_all_length [OF vs] len vs show ?thesis by simp
  qed
  have rel: "list_all2 (\<lambda>raw vs. float_all conv (split_ws (strip raw)) = Some vs \<and>
                 length vs = length (split_ws (strip hline))) rows ?vss"
    using each by (simp add: list_all2_conv_all_nth)
  have "parse_lammps_log conv (Some text) = [(split_ws (strip hline), ?vss)]"
    using parse_lines_header_rows [OF assms(1,3) rel] assms(2,4)
    by (simp add: parse_lammps_log_def)
  moreover have "list_all2 (\<lambda>raw vs. float_all conv (split_ws (strip raw)) = Some vs) rows ?vss"
    using each by (simp add: list_all2_conv_all_nth)
  ultimately show ?thesis by (intro exI [of _ ?vss]) simp
qed

theorem header_and_rows_one_section_witness:
  "readlines ''Step Temp\<newline>1 2\<newline>4 5\<newline>'' = ''Step Temp\<newline>'' # [''1 2\<newline>'', ''4 5\<newline>'']
   \<and> is_header (strip ''Step Temp\<newline>'')
   \<and> (\<exists>rs. parse_lammps_log float_digits (Some ''Step Temp\<newline>1 2\<newline>4 5\<newline>'')
              = [(split_ws (strip ''Step Temp\<newline>''), rs)]
           \<and> length rs = length [''1 2\<newline>'', ''4 5\<newline>'']
           \<and> list_all2 (\<lambda>raw vs. float_all float_digits (split_ws (strip raw)) = Some vs)
                [''1 2\<newline>'', ''4 5\<newline>''] rs)"
proof -
  have h2: "readlines ''Step Temp\<newline>1 2\<newline>4 5\<newline>'' = ''Step Temp\<newline>'' # [''1 2\<newline>'', ''4 5\<newline>'']"
    by code_simp
  have h3: "is_header (strip ''Step Temp\<newline>'')" by code_simp
  have h4: "[''1 2\<newline>'', ''4 5\<newline>''] \<noteq> []" by simp
  have r1: "float_all float_digits (split_ws (strip ''1 2\<newline>'')) \<noteq> None \<and>
           length (split_ws (strip ''1 2\<newline>'')) = length (split_ws (strip ''Step Temp\<newline>''))"
    by code_simp
  have r2: "float_all float_digits (split_ws (strip ''4 5\<newline>'')) \<noteq> None \<and>
           length (split_ws (strip ''4 5\<newline>'')) = length (split_ws (strip ''Step Temp\<newline>''))"
    by code_simp
  have h5: "\<forall>raw \<in> set [''1 2\<newline>'', ''4 5\<newline>'']. float_all float_digits (split_ws (strip raw)) \<noteq> None \<and>
           length (split_ws (strip raw)) = length (split_ws (strip ''Step Temp\<newline>''))"
    using r1 r2 by simp
  from h2 h3 header_and_rows_one_section [OF float_digits_float_like h2 h3 h4 h5]
  show ?thesis by blast
qed

text \<open>
  The claim of C5 fails for \<open>N = 0\<close>: a log that is a header line alone gives no
  section at all.
\<close>

theorem header_without_rows_counterexample:
  "readlines ''Step Temp\<newline>'' = [''Step Temp\<newline>'']
   \<and> ''Step'' \<in> set (split_ws (strip ''Step Temp\<newline>''))
   \<and> ''Temp'' \<in> set (split_ws (strip ''Step Temp\<newline>''))
   \<and> parse_lammps_log float_digits (Some ''Step Temp\<newline>'') = []"
  by code_simp


section \<open>One phase of the poller\<close>

lemma estimate_progress_bounds: "10 \<le> estimate_progress n \<and> estimate_progress n \<le> 95"
  by (simp add: estimate_progress_def)

lemma analyse_latest_status:
  "status (info (analyse_latest lib active i latest info0 dir)) =
     fst (estimate_latest active i latest)"
  by (simp add: analyse_latest_def split: prod.split)

lemma analyse_latest_progress:
  "progress (info (analyse_latest lib active i latest info0 dir)) =
     fst (snd (estimate_latest active i latest))"
  by (simp add: analyse_latest_def split: prod.split)


lemma estimate_latest_cases:
  obtains (unreadable) "log_text latest = None"
      "estimate_latest active i latest = (''Unknown'', 0, False)"
  | (finished) content where "log_text latest = Some content" "sublist ''Loop time'' content"
      "estimate_latest active i latest = (''Complete'', 100, True)"
  | (running) content where "log_text latest = Some content" "\<not> sublist ''Loop time'' content"
      "estimate_latest active i latest =
         (if str_nat i \<in> set active then ''Running'' else ''Paused'',
          estimate_progress (length content), False)"
proof (cases "log_text latest")
  case None
  then show ?thesis using unreadable by (simp add: estimate_latest_def)
next
  case (Some content)
  then show ?thesis using finished [of content] running [of content]
    by (cases "sublist ''Loop time'' content") (simp_all add: estimate_latest_def)
qed


lemma inspect_phase_complete_flag:
  assumes "pdir = Some d" and "complete_flag d" and "logs d = Some (l # ls)"
  shows "status (info (inspect_phase lib active i pdir dir)) = ''Complete''"
    and "progress (info (inspect_phase lib active i pdir dir)) = 100"
    and "new_calls (inspect_phase lib active i pdir dir) = []"
  using assms by (simp_all add: inspect_phase_def Let_def)

lemma inspect_phase_analysed:
  assumes "pdir = Some d" and "\<not> complete_flag d" and "logs d = Some (l # ls)"
  shows "inspect_phase lib active i pdir dir =
     analyse_latest lib active i (latest_of l ls)
       ((not_started i)\<lparr>log_files := map log_name (l # ls)\<rparr>) dir"
  using assms by (simp add: inspect_phase_def Let_def)

lemma inspect_phase_cases:
  obtains (idle) "inspect_phase lib active i pdir dir =
       \<lparr>info = not_started i, new_calls = [], plots_after = dir, completed = False\<rparr>"
  | (flag) d l ls where "pdir = Some d" "complete_flag d" "logs d = Some (l # ls)"
  | (analysed) d l ls where "pdir = Some d" "\<not> complete_flag d" "logs d = Some (l # ls)"
proof (cases pdir)
  case None
  then show ?thesis using idle by (simp add: inspect_phase_def)
next
  case (Some d)
  show ?thesis
  proof (cases "logs d")
    case None
    with Some show ?thesis using idle by (simp add: inspect_phase_def)
  next
    case lg: (Some lfs)
    show ?thesis
    proof (cases lfs)
      case Nil
      with Some lg show ?thesis using idle by (simp add: inspect_phase_def)
    next
      case (Cons l ls)
      with Some lg show ?thesis using flag [of d l ls] analysed [of d l ls] by blast
    qed
  qed
qed

lemma inspect_phase_progress_range:
  assumes "status (info (inspect_phase lib active i pdir dir)) \<noteq> ''Complete''"
    and "status (info (inspect_phase lib active i pdir dir)) \<noteq> ''Not Started''"
    and "status (info (inspect_phase lib active i pdir dir)) \<noteq> ''Unknown''"
  shows "10 \<le> progress (info (inspect_phase lib active i pdir dir)) \<and>
         progress (info (inspect_phase lib active i pdir dir)) \<le> 95"
proof (cases rule: inspect_phase_cases [where lib = lib and active = active and i = i
      and pdir = pdir and dir = dir])
  case idle
  with assms(2) show ?thesis by (simp add: not_started_def)
next
  case (flag d l ls)
  with assms(1) show ?thesis using inspect_phase_complete_flag(1) by blast
next
  case (analysed d l ls)
  note eq = inspect_phase_analysed [OF analysed, of lib active i dir]
  show ?thesis
  proof (cases rule: estimate_latest_cases [where latest = "latest_of l ls"
        and active = active and i = i])
    case unreadable
    with assms(3) show ?thesis unfolding eq analyse_latest_status by simp
  next
    case (finished content)
    with assms(1) show ?thesis unfolding eq analyse_latest_status by simp
  next
    case (running content)
    then show ?thesis
      unfolding eq analyse_latest_progress using estimate_progress_bounds [of "length content"]
      by simp
  qed
qed



section \<open>The loop over the four phases\<close>

lemma foldl4: "foldl f s [a, b, c, d] = f (f (f (f s a) b) c) d"
  by simp

lemma poll_unfold:
  "\<exists>d1 d2 d3 d4.
     phases (get_simulation_status lib env) =
       [info (inspect_phase lib (active_lammps_of (pgrep_lmp env)) 1 (phase_dirs env 1) d1),
        info (inspect_phase lib (active_lammps_of (pgrep_lmp env)) 2 (phase_dirs env 2) d2),
        info (inspect_phase lib (active_lammps_of (pgrep_lmp env)) 3 (phase_dirs env 3) d3),
        info (inspect_phase lib (active_lammps_of (pgrep_lmp env)) 4 (phase_dirs env 4) d4)] \<and>
     plot_calls (get_simulation_status lib env) =
       new_calls (inspect_phase lib (active_lammps_of (pgrep_lmp env)) 1 (phase_dirs env 1) d1) @
       new_calls (inspect_phase lib (active_lammps_of (pgrep_lmp env)) 2 (phase_dirs env 2) d2) @
       new_calls (inspect_phase lib (active_lammps_of (pgrep_lmp env)) 3 (phase_dirs env 3) d3) @
       new_calls (inspect_phase lib (active_lammps_of (pgrep_lmp env)) 4 (phase_dirs env 4) d4)"
  unfolding get_simulation_status_def Let_def foldl4 poll_phase_def
  by (simp del: foldl.simps) blast

lemma nth_phase:
  assumes "i \<in> {1, 2, 3, 4}"
  shows "\<exists>dir. phases (get_simulation_status lib env) ! (i - 1) =
     info (inspect_phase lib (active_lammps_of (pgrep_lmp env)) i (phase_dirs env i) dir)"
proof -
  obtain d1 d2 d3 d4 where
    ph: "phases (get_simulation_status lib env) =
       [info (inspect_phase lib (active_lammps_of (pgrep_lmp env)) 1 (phase_dirs env 1) d1),
        info (inspect_phase lib (active_lammps_of (pgrep_lmp env)) 2 (phase_dirs env 2) d2),
        info (inspect_phase lib (active_lammps_of (pgrep_lmp env)) 3 (phase_dirs env 3) d3),
        info (inspect_phase lib (active_lammps_of (pgrep_lmp env)) 4 (phase_dirs env 4) d4)]"
    using poll_unfold [of lib env] by blast
  from assms consider "i = 1" | "i = 2" | "i = 3" | "i = 4" by auto
  then show ?thesis
  proof cases
    case 1 then show ?thesis unfolding ph by (intro exI [of _ d1]) simp
  next
    case 2 then show ?thesis unfolding ph by (intro exI [of _ d2]) simp
  next
    case 3 then show ?thesis unfolding ph by (intro exI [of _ d3]) simp
  next
    case 4 then show ?thesis unfolding ph by (intro exI [of _ d4]) simp
  qed
qed



section \<open>Properties of the status poller\<close>




text \<open>
  C4, as the code has it.  For a phase whose status is none of Complete, Not Started
  and Unknown (so it is Running or Paused), the progress lies in the closed interval
  from 10 to 95.
\<close>

theorem progress_clamped_when_running_or_paused:
  assumes "i \<in> {1, 2, 3, 4}"
    and "status (phases (get_simulation_status lib env) ! (i - 1)) \<noteq> ''Complete''"
    and "status (phases (get_simulation_status lib env) ! (i - 1)) \<noteq> ''Not Started''"
    and "status (phases (get_simulation_status lib env) ! (i - 1)) \<noteq> ''Unknown''"
  shows "10 \<le> progress (phases (get_simulation_status lib env) ! (i - 1)) \<and>
         progress (phases (get_simulation_status lib env) ! (i - 1)) \<le> 95"
proof -
  obtain dir where eq: "phases (get_simulation_status lib env) ! (i - 1) =
     info (inspect_phase lib (active_lammps_of (pgrep_lmp env)) i (phase_dirs env i) dir)"
    using nth_phase [OF assms(1)] by blast
  show ?thesis
    using assms(2,3,4) unfolding eq by (rule inspect_phase_progress_range)
qed

theorem progress_clamped_when_running_or_paused_witness:
  "(3::nat) \<in> {1, 2, 3, 4}
   \<and> status (phases (get_simulation_status sample_lib sample_env) ! (3 - 1)) = ''Running''
   \<and> 10 \<le> progress (phases (get_simulation_status sample_lib sample_env) ! (3 - 1))
   \<and> progress (phases (get_simulation_status sample_lib sample_env) ! (3 - 1)) \<le> 95"
proof -
  have h1: "(3::nat) \<in> {1, 2, 3, 4}" by simp
  have st: "status (phases (get_simulation_status sample_lib sample_env) ! (3 - 1)) = ''Running''"
    by code_simp
  have h2: "status (phases (get_simulation_status sample_lib sample_env) ! (3 - 1)) \<noteq> ''Complete''"
    and h3: "status (phases (get_simulation_status sample_lib sample_env) ! (3 - 1)) \<noteq> ''Not Started''"
    and h4: "status (phases (get_simulation_status sample_lib sample_env) ! (3 - 1)) \<noteq> ''Unknown''"
    unfolding st by simp_all
  from h1 st progress_clamped_when_running_or_paused [OF h1 h2 h3 h4]
  show ?thesis by simp
qed

text \<open>
  The claim of C4 fails for the second phase of the sample snapshot: its log cannot be
  read, the handler sets the status Unknown, which is neither Complete nor Not
  Started, and the progress 0.
\<close>

theorem progress_unknown_counterexample:
  "status (phases (get_simulation_status sample_lib sample_env) ! (2 - 1)) = ''Unknown''
   \<and> status (phases (get_simulation_status sample_lib sample_env) ! (2 - 1)) \<noteq> ''Complete''
   \<and> status (phases (get_simulation_status sample_lib sample_env) ! (2 - 1)) \<noteq> ''Not Started''
   \<and> progress (phases (get_simulation_status sample_lib sample_env) ! (2 - 1)) = 0
   \<and> \<not> 10 \<le> progress (phases (get_simulation_status sample_lib sample_env) ! (2 - 1))"
  by code_simp





section \<open>Missing input files of the report generator\<close>

lemma load_data_missing: "\<not> path_exists env f \<Longrightarrow> load_data env f = None"
  by (simp add: load_data_def)

lemma analyze_missing:
  "\<not> path_exists env (input_file k) \<Longrightarrow> analyze env k = Inr None"
  by (cases k)
    (simp_all add: analyze_def input_file_def analyze_size_distribution_def
      analyze_composition_def analyze_structure_def analyze_thermodynamics_def
      analyze_time_evolution_def load_data_missing)

lemma outcome_returns: "returns res \<Longrightarrow> outcome res = (True, None)"
  by (cases res) (simp_all add: returns_def outcome_def)

lemma main_all_return:
  assumes "\<And>j. returns (analyze env j)"
  shows "Analyze j \<in> set (fst (main env))"
proof -
  have "returns (analyze_size_distribution env)"
    using assms [of Size] by (simp add: analyze_def)
  moreover have "returns (analyze_composition env)"
    using assms [of Composition] by (simp add: analyze_def)
  moreover have "returns (analyze_structure env)"
    using assms [of Structure] by (simp add: analyze_def)
  moreover have "returns (analyze_thermodynamics env)"
    using assms [of Thermodynamics] by (simp add: analyze_def)
  moreover have "returns (analyze_time_evolution env)"
    using assms [of TimeEvolution] by (simp add: analyze_def)
  ultimately have "set (map Analyze [Size, Composition, Structure, Thermodynamics, TimeEvolution])
           \<subseteq> set (fst (main env))"
    by (simp add: main_def outcome_returns split: prod.split)
  then show ?thesis by (cases j) simp_all
qed

text \<open>A run that ends with an exception ends at a call that did not return.\<close>

lemma run_calls_stops:
  "snd (run_calls cs) = Some e \<Longrightarrow> \<exists>exn. (last (fst (run_calls cs)), False, exn) \<in> set cs"
proof (induction cs)
  case Nil
  then show ?case by simp
next
  case (Cons entry cs)
  obtain c ok exn where entry: "entry = (c, ok, exn)" by (cases entry)
  show ?case
  proof (cases ok)
    case False
    with entry show ?thesis by auto
  next
    case True
    obtain tr res where rest: "run_calls cs = (tr, res)" by (cases "run_calls cs")
    with Cons.prems entry True have res: "res = Some e" by simp
    with Cons.IH rest obtain exn' where mem: "(last tr, False, exn') \<in> set cs" by auto
    then have "cs \<noteq> []" by auto
    with rest res have "tr \<noteq> []" by (cases cs) (auto split: if_splits prod.splits)
    with entry True rest mem show ?thesis by auto
  qed
qed

lemma main_not_stopped_by_skipped:
  assumes "analyze env k = Inr None" and "snd (main env) = Some e"
  shows "last (fst (main env)) \<noteq> Analyze k"
proof
  assume stop: "last (fst (main env)) = Analyze k"
  from run_calls_stops [OF assms(2) [unfolded main_def]] stop
  obtain exn where
    "(Analyze k, False, exn) \<in> set
       [(Analyze Size, outcome (analyze_size_distribution env)),
        (Analyze Composition, outcome (analyze_composition env)),
        (Analyze Structure, outcome (analyze_structure env)),
        (Analyze Thermodynamics, outcome (analyze_thermodynamics env)),
        (Analyze TimeEvolution, outcome (analyze_time_evolution env)),
        (GenerateReport, outcome (html_report env)),
        (GeneratePdfReport, outcome (pdf_report env))]"
    unfolding main_def by auto
  then have "outcome (analyze env k) = (False, exn)"
    by (cases k) (auto simp: analyze_def)
  with assms(1) show False by (simp add: outcome_def)
qed

section \<open>A row that float refuses\<close>

lemma parse_line_refused:
  assumes "in_data_section st" and "\<not> is_header (strip raw)" and "strip raw \<noteq> []"
    and "\<not> prefix ''Loop'' (strip raw)" and "\<not> prefix ''#'' (strip raw)"
    and "float_all conv (split_ws (strip raw)) = None"
  shows "parse_line conv st raw = st\<lparr>in_data_section := False\<rparr>"
  using assms by (simp add: parse_line_def Let_def)

lemma parse_line_outside:
  "\<not> in_data_section st \<Longrightarrow> \<not> is_header (strip raw) \<Longrightarrow> parse_line conv st raw = st"
  by (simp add: parse_line_def Let_def)

lemma foldl_outside:
  "\<not> in_data_section st \<Longrightarrow> \<forall>l \<in> set post. \<not> is_header (strip l) \<Longrightarrow>
   foldl (parse_line conv) st post = st"
  by (induction post arbitrary: st) (simp_all add: parse_line_outside)

lemma parse_lines_refused:
  assumes "in_data_section (run_lines conv pre)" and "\<not> is_header (strip raw)"
    and "strip raw \<noteq> []"
    and "\<not> prefix ''Loop'' (strip raw)" and "\<not> prefix ''#'' (strip raw)"
    and "float_all conv (split_ws (strip raw)) = None"
    and "\<forall>l \<in> set post. \<not> is_header (strip l)"
  shows "parse_lines conv (pre @ raw # post) = data_sections (run_lines conv pre)"
proof -
  let ?st = "run_lines conv pre"
  have "run_lines conv (pre @ raw # post) =
      foldl (parse_line conv) (parse_line conv ?st raw) post"
    by (simp add: run_lines_def)
  also have "\<dots> = foldl (parse_line conv) (?st\<lparr>in_data_section := False\<rparr>) post"
    using parse_line_refused [OF assms(1,2,3,4,5,6)] by simp
  also have "\<dots> = ?st\<lparr>in_data_section := False\<rparr>"
    using foldl_outside [of "?st\<lparr>in_data_section := False\<rparr>" post conv] assms(7) by simp
  finally show ?thesis by (simp add: parse_lines_def flush_def)
qed

text \<open>
  C8, as the code has it.  When the input file of an analysis does not exist,
  \<^verbatim>\<open>load_data\<close> returns \<^verbatim>\<open>None\<close> for it and the analysis returns \<^verbatim>\<open>None\<close>
  without raising, so a run of \<^verbatim>\<open>main\<close> that ends with an exception does not end at
  that analysis; \<^verbatim>\<open>main\<close> has no handler, and it calls all five analyses when none
  of the others raises.  \<^verbatim>\<open>parse_lammps_log\<close> returns the empty list when opening
  or reading the log raises.  A \<^verbatim>\<open>ValueError\<close> of \<^verbatim>\<open>float\<close> on a row of an open
  section is caught inside the loop: the section being read is dropped, and as long
  as no header line follows the result is the list of the sections completed before.
\<close>

theorem missing_file_returns_none:
  assumes "\<not> path_exists env (input_file k)"
  shows "load_data env (input_file k) = None \<and>
         analyze env k = Inr None \<and>
         (snd (main env) \<noteq> None \<longrightarrow> last (fst (main env)) \<noteq> Analyze k) \<and>
         ((\<forall>j. j \<noteq> k \<longrightarrow> returns (analyze env j)) \<longrightarrow>
            (\<forall>j. Analyze j \<in> set (fst (main env)))) \<and>
         parse_lammps_log conv None = [] \<and>
         (in_data_section (run_lines conv pre) \<and> \<not> is_header (strip raw) \<and>
          strip raw \<noteq> [] \<and> \<not> prefix ''Loop'' (strip raw) \<and> \<not> prefix ''#'' (strip raw) \<and>
          float_all conv (split_ws (strip raw)) = None \<and>
          (\<forall>l \<in> set post. \<not> is_header (strip l)) \<longrightarrow>
            parse_lines conv (pre @ raw # post) = data_sections (run_lines conv pre))"
proof -
  have k: "analyze env k = Inr None" using analyze_missing [OF assms] .
  have stop: "snd (main env) \<noteq> None \<longrightarrow> last (fst (main env)) \<noteq> Analyze k"
    using main_not_stopped_by_skipped [OF k] by auto
  have all: "(\<forall>j. j \<noteq> k \<longrightarrow> returns (analyze env j)) \<longrightarrow>
            (\<forall>j. Analyze j \<in> set (fst (main env)))"
  proof (intro impI allI)
    fix j
    assume others: "\<forall>j. j \<noteq> k \<longrightarrow> returns (analyze env j)"
    have "returns (analyze env j')" for j'
      using others k by (cases "j' = k") (auto simp: returns_def)
    then show "Analyze j \<in> set (fst (main env))" by (rule main_all_return)
  qed
  have refused: "in_data_section (run_lines conv pre) \<and> \<not> is_header (strip raw) \<and>
          strip raw \<noteq> [] \<and> \<not> prefix ''Loop'' (strip raw) \<and> \<not> prefix ''#'' (strip raw) \<and>
          float_all conv (split_ws (strip raw)) = None \<and>
          (\<forall>l \<in> set post. \<not> is_header (strip l)) \<longrightarrow>
            parse_lines conv (pre @ raw # post) = data_sections (run_lines conv pre)"
    using parse_lines_refused [of conv pre raw post] by blast
  have none: "parse_lammps_log conv None = []" by (simp add: parse_lammps_log_def)
  from k load_data_missing [OF assms] stop all none refused show ?thesis by blast
qed

theorem missing_file_returns_none_witness:
  "\<not> path_exists sample_report_env (input_file Size)
   \<and> load_data sample_report_env (input_file Size) = None
   \<and> analyze sample_report_env Size = Inr None
   \<and> analyze sample_report_env Composition = Inr (Some 7)
   \<and> fst (main sample_report_env) =
       [Analyze Size, Analyze Composition, Analyze Structure, Analyze Thermodynamics,
        Analyze TimeEvolution, GenerateReport, GeneratePdfReport]
   \<and> list_all (\<lambda>j. Analyze j \<in> set (fst (main sample_report_env)))
       [Size, Composition, Structure, Thermodynamics, TimeEvolution]
   \<and> \<not> path_exists raising_report_env (input_file Size)
   \<and> snd (main raising_report_env) = Some ''IndexError''
   \<and> last (fst (main raising_report_env)) \<noteq> Analyze Size
   \<and> parse_lammps_log float_digits None = []
   \<and> in_data_section (run_lines float_digits
        [''Step Temp\<newline>'', ''1 2\<newline>'', ''Step Temp\<newline>'', ''3 4\<newline>''])
   \<and> float_all float_digits (split_ws (strip ''abc\<newline>'')) = None
   \<and> parse_lines float_digits
        ([''Step Temp\<newline>'', ''1 2\<newline>'', ''Step Temp\<newline>'', ''3 4\<newline>'']
           @ ''abc\<newline>'' # [''5 6\<newline>''])
      = data_sections (run_lines float_digits
          [''Step Temp\<newline>'', ''1 2\<newline>'', ''Step Temp\<newline>'', ''3 4\<newline>''])
   \<and> data_sections (run_lines float_digits
          [''Step Temp\<newline>'', ''1 2\<newline>'', ''Step Temp\<newline>'', ''3 4\<newline>''])
      = [([''Step'', ''Temp''], [[1, 2]])]"
proof -
  let ?pre = "[''Step Temp\<newline>'', ''1 2\<newline>'', ''Step Temp\<newline>'', ''3 4\<newline>'']"
  have h1: "\<not> path_exists sample_report_env (input_file Size)" by code_simp
  have comp: "analyze sample_report_env Composition = Inr (Some 7)" by code_simp
  have r: "returns (analyze sample_report_env Composition)"
    "returns (analyze sample_report_env Structure)"
    "returns (analyze sample_report_env Thermodynamics)"
    "returns (analyze sample_report_env TimeEvolution)"
    by code_simp+
  have h2: "\<forall>j. j \<noteq> Size \<longrightarrow> returns (analyze sample_report_env j)"
  proof (intro allI impI)
    fix j :: analysis
    assume "j \<noteq> Size"
    then show "returns (analyze sample_report_env j)" using r by (cases j) simp_all
  qed
  have tr: "fst (main sample_report_env) =
       [Analyze Size, Analyze Composition, Analyze Structure, Analyze Thermodynamics,
        Analyze TimeEvolution, GenerateReport, GeneratePdfReport]"
    by code_simp
  have g1: "\<not> path_exists raising_report_env (input_file Size)" by code_simp
  have g2: "snd (main raising_report_env) = Some ''IndexError''" by code_simp
  have p1: "in_data_section (run_lines float_digits ?pre)" by code_simp
  have p2: "\<not> is_header (strip ''abc\<newline>'')" by code_simp
  have p3: "strip ''abc\<newline>'' \<noteq> []" by code_simp
  have p4: "\<not> prefix ''Loop'' (strip ''abc\<newline>'')" by code_simp
  have p5: "\<not> prefix ''#'' (strip ''abc\<newline>'')" by code_simp
  have p6: "float_all float_digits (split_ws (strip ''abc\<newline>'')) = None" by code_simp
  have p7: "\<forall>l \<in> set [''5 6\<newline>'']. \<not> is_header (strip l)" by code_simp
  have ds: "data_sections (run_lines float_digits ?pre) = [([''Step'', ''Temp''], [[1, 2]])]"
    by code_simp
  note a = missing_file_returns_none [OF h1, of float_digits ?pre "''abc\<newline>''" "[''5 6\<newline>'']"]
  note b = missing_file_returns_none [OF g1, of float_digits "[]" "[]" "[]"]
  from a h2 have all: "\<forall>j. Analyze j \<in> set (fst (main sample_report_env))" by blast
  from a p1 p2 p3 p4 p5 p6 p7
  have pl: "parse_lines float_digits (?pre @ ''abc\<newline>'' # [''5 6\<newline>''])
      = data_sections (run_lines float_digits ?pre)" by blast
  from b g2 have ns: "last (fst (main raising_report_env)) \<noteq> Analyze Size" by simp
  from a have ld: "load_data sample_report_env (input_file Size) = None"
    and an: "analyze sample_report_env Size = Inr None"
    and nn: "parse_lammps_log float_digits None = []" by blast+
  from all have la: "list_all (\<lambda>j. Analyze j \<in> set (fst (main sample_report_env)))
       [Size, Composition, Structure, Thermodynamics, TimeEvolution]" by simp
  show ?thesis
    using h1 ld an comp tr la g1 g2 ns nn p1 p6 pl ds by (intro conjI)
qed

text \<open>
  The claim of C8 fails in two places.  With the size file missing and the composition
  analysis raising, \<^verbatim>\<open>main\<close> ends after its second call, and the three analyses
  after it are not called.  And on a log whose second section ends with a row that
  \<^verbatim>\<open>float\<close> refuses, a \<^verbatim>\<open>ValueError\<close> occurs while parsing and the result is not
  the empty list.
\<close>

theorem missing_file_counterexample:
  "\<not> path_exists raising_report_env (input_file Size)
   \<and> analyze raising_report_env Size = Inr None
   \<and> main raising_report_env = ([Analyze Size, Analyze Composition], Some ''IndexError'')
   \<and> Analyze Structure \<notin> set (fst (main raising_report_env))
   \<and> Analyze Thermodynamics \<notin> set (fst (main raising_report_env))
   \<and> Analyze TimeEvolution \<notin> set (fst (main raising_report_env))
   \<and> float_digits ''abc'' = None
   \<and> parse_lammps_log float_digits
        (Some ''Step Temp\<newline>1 2\<newline>Step Temp\<newline>3 4\<newline>abc\<newline>'')
      = [([''Step'', ''Temp''], [[1, 2]])]"
  by code_simp


end
